theory Spec2Isabelle
  imports Main "HOL-Library.Word"
begin

section \<open>Strings of the host language\<close>

text \<open>
  A JavaScript string is a sequence of 16-bit code units. The regular expression of
  \<open>findRealCaller\<close> has no \<open>u\<close> flag, so it works on code units too. Literals of
  the source are written \<open>js ''...''\<close>; the emoji literals of \<open>src/index.js\<close> hold code
  units above 255 and are written as lists of numerals.
\<close>

type_synonym code_unit = "16 word"
type_synonym jsstring = "code_unit list"

definition js :: "string \<Rightarrow> jsstring" where
  "js s = map of_char s"

definition LF :: code_unit where
  "LF = 0x0A"

text \<open>The syntactic classes of ECMAScript that the source relies on.\<close>

definition is_line_terminator :: "code_unit \<Rightarrow> bool" where
  "is_line_terminator c \<longleftrightarrow> c = 0x0A \<or> c = 0x0D \<or> c = 0x2028 \<or> c = 0x2029"

definition is_white_space :: "code_unit \<Rightarrow> bool" where
  "is_white_space c \<longleftrightarrow>
     c = 0x09 \<or> c = 0x0B \<or> c = 0x0C \<or> c = 0x20 \<or> c = 0xA0 \<or> c = 0x1680 \<or>
     (0x2000 \<le> c \<and> c \<le> 0x200A) \<or> c = 0x202F \<or> c = 0x205F \<or> c = 0x3000 \<or> c = 0xFEFF"

definition is_trimmed :: "code_unit \<Rightarrow> bool" where
  \<comment> \<open>what \<open>String.prototype.trim\<close> strips: white space and line terminators\<close>
  "is_trimmed c \<longleftrightarrow> is_white_space c \<or> is_line_terminator c"

definition dot :: "code_unit \<Rightarrow> bool" where
  \<comment> \<open>the atom \<open>.\<close> without the \<open>s\<close> flag\<close>
  "dot c \<longleftrightarrow> \<not> is_line_terminator c"

definition digit :: "code_unit \<Rightarrow> bool" where
  \<comment> \<open>the atom \<open>\d\<close>\<close>
  "digit c \<longleftrightarrow> 0x30 \<le> c \<and> c \<le> 0x39"

definition is_path_separator :: "code_unit \<Rightarrow> bool" where
  \<comment> \<open>the class \<open>[\\/]\<close>\<close>
  "is_path_separator c \<longleftrightarrow> c = 0x5C \<or> c = 0x2F"

definition trim :: "jsstring \<Rightarrow> jsstring" where
  "trim s = rev (dropWhile is_trimmed (rev (dropWhile is_trimmed s)))"

text \<open>
  \<open>s.split(sep)\<close> for a separator that matches exactly one code unit (the string
  \<open>"\n"\<close>, the class \<open>[\\/]\<close>): the result always has at least one element, and the
  empty string gives one empty piece.
\<close>

fun split_on :: "(code_unit \<Rightarrow> bool) \<Rightarrow> jsstring \<Rightarrow> jsstring list" where
  "split_on sep [] = [[]]"
| "split_on sep (c # cs) =
     (if sep c then [] # split_on sep cs
      else (case split_on sep cs of
              [] \<Rightarrow> [[c]]
            | piece # pieces \<Rightarrow> (c # piece) # pieces))"

fun starts_with :: "jsstring \<Rightarrow> jsstring \<Rightarrow> bool" where
  "starts_with s [] = True"
| "starts_with [] (p # ps) = False"
| "starts_with (c # cs) (p # ps) = (c = p \<and> starts_with cs ps)"

fun str_includes :: "jsstring \<Rightarrow> jsstring \<Rightarrow> bool" where
  \<comment> \<open>\<open>s.includes(sub)\<close>\<close>
  "str_includes [] sub = (sub = [])"
| "str_includes (c # cs) sub = (starts_with (c # cs) sub \<or> str_includes cs sub)"

definition pop :: "jsstring list \<Rightarrow> jsstring" where
  \<comment> \<open>\<open>pieces.pop()\<close>; on an empty array it is \<open>undefined\<close>, which \<open>||\<close> treats as
      the empty string is treated\<close>
  "pop pieces = (case rev pieces of [] \<Rightarrow> [] | p # _ \<Rightarrow> p)"

definition or_else :: "jsstring \<Rightarrow> jsstring \<Rightarrow> jsstring" where
  \<comment> \<open>\<open>s || d\<close> on a string \<open>s\<close>: the empty string is falsy\<close>
  "or_else s d = (if s = [] then d else s)"

section \<open>The frame pattern\<close>

text \<open>
  The pattern \<open>/at (.*?) \(?(.+?):(\d+):(\d+)\)?/\<close> is embedded as a backtracking
  matcher in continuation style, piece by piece as it is written: every piece takes the
  continuation that matches the rest of the pattern, and hands it the rest of the input.
  A lazy quantifier tries the continuation first and takes one more code unit only when
  it fails; a greedy one takes first and falls back to the continuation.
\<close>

type_synonym 'a cont = "jsstring \<Rightarrow> 'a option"

fun lit :: "jsstring \<Rightarrow> 'a cont \<Rightarrow> 'a cont" where
  "lit [] k s = k s"
| "lit (p # ps) k [] = None"
| "lit (p # ps) k (c # cs) = (if c = p then lit ps k cs else None)"

fun lazy_star :: "(code_unit \<Rightarrow> bool) \<Rightarrow> (jsstring \<Rightarrow> 'a cont) \<Rightarrow> jsstring \<Rightarrow> 'a cont" where
  \<comment> \<open>\<open>(X*?)\<close>, the third argument is what the group has taken so far\<close>
  "lazy_star X k taken [] = k taken []"
| "lazy_star X k taken (c # cs) =
     (case k taken (c # cs) of
        Some r \<Rightarrow> Some r
      | None \<Rightarrow> if X c then lazy_star X k (taken @ [c]) cs else None)"

definition lazy_plus :: "(code_unit \<Rightarrow> bool) \<Rightarrow> (jsstring \<Rightarrow> 'a cont) \<Rightarrow> 'a cont" where
  \<comment> \<open>\<open>(X+?)\<close>\<close>
  "lazy_plus X k s =
     (case s of [] \<Rightarrow> None | c # cs \<Rightarrow> if X c then lazy_star X k [c] cs else None)"

fun greedy_star :: "(code_unit \<Rightarrow> bool) \<Rightarrow> (jsstring \<Rightarrow> 'a cont) \<Rightarrow> jsstring \<Rightarrow> 'a cont" where
  \<comment> \<open>\<open>(X*)\<close>\<close>
  "greedy_star X k taken [] = k taken []"
| "greedy_star X k taken (c # cs) =
     (if X c then
        (case greedy_star X k (taken @ [c]) cs of
           Some r \<Rightarrow> Some r
         | None \<Rightarrow> k taken (c # cs))
      else k taken (c # cs))"

definition greedy_plus :: "(code_unit \<Rightarrow> bool) \<Rightarrow> (jsstring \<Rightarrow> 'a cont) \<Rightarrow> 'a cont" where
  \<comment> \<open>\<open>(X+)\<close>\<close>
  "greedy_plus X k s =
     (case s of [] \<Rightarrow> None | c # cs \<Rightarrow> if X c then greedy_star X k [c] cs else None)"

definition greedy_opt :: "code_unit \<Rightarrow> 'a cont \<Rightarrow> 'a cont" where
  \<comment> \<open>\<open>p?\<close> for one literal code unit\<close>
  "greedy_opt p k s =
     (case s of
        [] \<Rightarrow> k []
      | c # cs \<Rightarrow>
          if c = p then (case k cs of Some r \<Rightarrow> Some r | None \<Rightarrow> k (c # cs))
          else k (c # cs))"

record frame_match =
  g1 :: jsstring
  g2 :: jsstring
  g3 :: jsstring
  g4 :: jsstring

definition frame_pattern :: "frame_match cont" where
  "frame_pattern =
     lit (js ''at '')
       (lazy_star dot (\<lambda>m1.
          lit (js '' '')
            (greedy_opt 0x28
               (lazy_plus dot (\<lambda>m2.
                  lit (js '':'')
                    (greedy_plus digit (\<lambda>m3.
                       lit (js '':'')
                         (greedy_plus digit (\<lambda>m4.
                            greedy_opt 0x29
                              (\<lambda>rest. Some \<lparr>g1 = m1, g2 = m2, g3 = m3, g4 = m4\<rparr>))))))))) [])"

fun regexp_exec :: "'a cont \<Rightarrow> jsstring \<Rightarrow> 'a option" where
  \<comment> \<open>a pattern without the \<open>g\<close> or \<open>y\<close> flag is tried at index 0, then 1, and so on\<close>
  "regexp_exec m [] = m []"
| "regexp_exec m (c # cs) =
     (case m (c # cs) of Some r \<Rightarrow> Some r | None \<Rightarrow> regexp_exec m cs)"

definition match_frame :: "jsstring \<Rightarrow> frame_match option" where
  \<comment> \<open>\<open>line.match(/at (.*?) \(?(.+?):(\d+):(\d+)\)?/)\<close>, \<open>None\<close> for \<open>null\<close>\<close>
  "match_frame line = regexp_exec frame_pattern line"

section \<open>findRealCaller\<close>

record descriptor =
  functionName :: jsstring
  fileName :: jsstring
  line :: jsstring

datatype error = TypeError | HostError nat

definition unknown_descriptor :: descriptor where
  "unknown_descriptor =
     \<lparr>functionName = js ''Global Scope'', fileName = js ''unknown'', line = js ''?''\<rparr>"

definition is_logger_reference :: "jsstring \<Rightarrow> jsstring \<Rightarrow> bool" where
  "is_logger_reference fullPath func \<longleftrightarrow>
     str_includes fullPath (js ''console-logger-fresh.js'') \<or>
     str_includes fullPath (js ''console_log_extension_fresh'') \<or>
     str_includes func (js ''ConsoleLogExtension'')"

fun scan_frames :: "jsstring list \<Rightarrow> descriptor" where
  \<comment> \<open>the \<open>for\<close> loop, on the lines from index 1 on\<close>
  "scan_frames [] = unknown_descriptor"
| "scan_frames (l # ls) =
     (case match_frame l of
        None \<Rightarrow> scan_frames ls
      | Some m \<Rightarrow>
          (let func = or_else (g1 m) (js ''Global Scope'');
               fullPath = or_else (g2 m) (js ''unknown'');
               lineNum = or_else (g3 m) (js ''?'')
           in if is_logger_reference fullPath func then scan_frames ls
              else \<lparr>functionName = (if func \<noteq> js ''<anonymous>'' then func else js ''Global Scope''),
                    fileName = or_else (pop (split_on is_path_separator fullPath)) (js ''unknown''),
                    line = lineNum\<rparr>))"

definition stack_lines :: "jsstring \<Rightarrow> jsstring list" where
  \<comment> \<open>\<open>err.stack.split("\n").map((line) => line.trim())\<close>\<close>
  "stack_lines stack = map trim (split_on (\<lambda>c. c = LF) stack)"

definition findRealCaller :: "jsstring option \<Rightarrow> error + descriptor" where
  \<comment> \<open>The argument is \<open>new Error().stack\<close>: the trace text, or \<open>None\<close> where the host
      gives no string there, and then \<open>err.stack.split\<close> raises.\<close>
  "findRealCaller stack =
     (case stack of
        None \<Rightarrow> Inl TypeError
      | Some trace \<Rightarrow> Inr (scan_frames (drop 1 (stack_lines trace))))"

section \<open>Values, object literals and the host\<close>

text \<open>
  The values that reach the logger: the arguments of \<open>log\<close> and the values stored in
  the configuration. \<open>JNum\<close> holds the integral numbers, \<open>JObj\<close> stands for any other
  object, by reference. \<open>JInherited k\<close> is what reading the property \<open>k\<close> gives on an
  object literal that has no own property \<open>k\<close> while \<open>Object.prototype\<close> has one: a
  built-in function, or the prototype object itself for \<open>__proto__\<close>.
\<close>

datatype jsval =
    JUndefined
  | JNull
  | JBool bool
  | JNum int
  | JStr jsstring
  | JObj nat
  | JInherited jsstring

text \<open>
  What the logger takes from its host: the stack text of a fresh \<open>Error\<close>, the local
  time as \<open>toLocaleString\<close> prints it, the output primitive \<open>console.log\<close> (which may
  raise instead of printing), and the texts that objects and built-in functions convert to.
\<close>

record host =
  err_stack :: "jsstring option"
  locale_string :: jsstring
  console_log :: "jsval list \<Rightarrow> error option"
  object_text :: "nat \<Rightarrow> jsstring"
  native_text :: "jsstring \<Rightarrow> jsstring"

fun truthy :: "jsval \<Rightarrow> bool" where
  "truthy JUndefined = False"
| "truthy JNull = False"
| "truthy (JBool b) = b"
| "truthy (JNum n) = (n \<noteq> 0)"
| "truthy (JStr s) = (s \<noteq> [])"
| "truthy (JObj r) = True"
| "truthy (JInherited k) = True"

definition js_or :: "jsval \<Rightarrow> jsval \<Rightarrow> jsval" where
  \<comment> \<open>\<open>a || b\<close>\<close>
  "js_or a b = (if truthy a then a else b)"

fun decimal :: "nat \<Rightarrow> jsstring" where
  "decimal n = (if n < 10 then [of_nat (48 + n)] else decimal (n div 10) @ [of_nat (48 + n mod 10)])"

declare decimal.simps [simp del]

fun to_string :: "host \<Rightarrow> jsval \<Rightarrow> jsstring" where
  \<comment> \<open>the conversion to a string that property keys, \<open>join\<close> and \<open>+\<close> apply; numbers
      print in decimal (as the language does below \<open>10^21\<close>)\<close>
  "to_string h JUndefined = js ''undefined''"
| "to_string h JNull = js ''null''"
| "to_string h (JBool b) = (if b then js ''true'' else js ''false'')"
| "to_string h (JNum n) = (if n < 0 then js ''-'' @ decimal (nat (- n)) else decimal (nat n))"
| "to_string h (JStr s) = s"
| "to_string h (JObj r) = object_text h r"
| "to_string h (JInherited k) =
     (if k = js ''__proto__'' then js ''[object Object]'' else native_text h k)"

definition object_prototype_names :: "jsstring list" where
  "object_prototype_names =
     [js ''constructor'', js ''hasOwnProperty'', js ''isPrototypeOf'',
      js ''propertyIsEnumerable'', js ''toLocaleString'', js ''toString'', js ''valueOf'',
      js ''__proto__'', js ''__defineGetter__'', js ''__defineSetter__'',
      js ''__lookupGetter__'', js ''__lookupSetter__'']"

definition get_property :: "(jsstring \<times> jsval) list \<Rightarrow> jsstring \<Rightarrow> jsval" where
  \<comment> \<open>\<open>obj[key]\<close> on an object literal: its own property, else the one it inherits
      from \<open>Object.prototype\<close>, else \<open>undefined\<close>\<close>
  "get_property obj key =
     (case map_of obj key of
        Some v \<Rightarrow> v
      | None \<Rightarrow> if key \<in> set object_prototype_names then JInherited key else JUndefined)"

fun join :: "host \<Rightarrow> jsstring \<Rightarrow> jsval list \<Rightarrow> jsstring" where
  \<comment> \<open>\<open>parts.join(sep)\<close>: \<open>undefined\<close> and \<open>null\<close> print as the empty string\<close>
  "join h sep [] = []"
| "join h sep [x] = (if x = JUndefined \<or> x = JNull then [] else to_string h x)"
| "join h sep (x # y # ys) =
     (if x = JUndefined \<or> x = JNull then [] else to_string h x) @ sep @ join h sep (y # ys)"

section \<open>The lookups\<close>

definition knownLevels :: "jsval list" where
  "knownLevels = [JStr (js ''[INFO]''), JStr (js ''[WARNING]''), JStr (js ''[ERROR]''),
                  JStr (js ''[DEBUG]'')]"

definition detectLogLevel :: "jsval \<Rightarrow> jsval" where
  \<comment> \<open>\<open>knownLevels.includes(msg) ? msg : null\<close>\<close>
  "detectLogLevel msg = (if msg \<in> set knownLevels then msg else JNull)"

definition mapping :: "(jsstring \<times> jsval) list" where
  \<comment> \<open>the emoji literals, in the code units \<open>src/index.js\<close> stores them in\<close>
  "mapping =
     [(js ''[INFO]'', JStr [0x201A, 0xD1, 0x3C0, 0xD4, 0x220F, 0xE8]),
      (js ''[WARNING]'', JStr [0x201A, 0xF6, 0x2020, 0xD4, 0x220F, 0xE8]),
      (js ''[ERROR]'', JStr [0x201A, 0xF9, 0xE5]),
      (js ''[DEBUG]'', JStr [0xF8FF, 0xFC, 0xEA, 0xFB]),
      (js ''[LOG]'', JStr [0xF8FF, 0xFC, 0xEC, 0xF9])]"

definition getLogLevelEmoji :: "host \<Rightarrow> jsval \<Rightarrow> jsval" where
  \<comment> \<open>\<open>mapping[level] || mapping["[LOG]"]\<close>\<close>
  "getLogLevelEmoji h level =
     js_or (get_property mapping (to_string h level)) (get_property mapping (js ''[LOG]''))"

definition levelStyles :: "(jsstring \<times> jsval) list" where
  "levelStyles =
     [(js ''[INFO]'', JStr (js ''color: blue; font-weight: bold;'')),
      (js ''[WARNING]'', JStr (js ''color: orange; font-weight: bold;'')),
      (js ''[ERROR]'', JStr (js ''color: red; font-weight: bold;'')),
      (js ''[DEBUG]'', JStr (js ''color: gray; font-style: italic;'')),
      (js ''[LOG]'', JStr [])]"

definition themeStyles :: "(jsstring \<times> jsval) list" where
  "themeStyles =
     [(js ''dark'', JStr (js ''color: white;'')),
      (js ''light'', JStr (js ''color: black;'')),
      (js ''neon'', JStr (js ''color: cyan; font-weight: bold;'')),
      (js ''minimal'', JStr (js ''color: gray; font-style: italic;''))]"

definition getThemeStyles :: "host \<Rightarrow> jsval \<Rightarrow> jsval \<Rightarrow> jsstring" where
  \<comment> \<open>Both operands of the final \<open>+\<close> are strings or inherited objects, so it
      concatenates their texts.\<close>
  "getThemeStyles h theme level =
     (let finalLevelStyle = js_or (get_property levelStyles (to_string h level)) (JStr []);
          finalThemeStyle = js_or (get_property themeStyles (to_string h theme))
                                  (get_property themeStyles (js ''dark''))
      in to_string h finalLevelStyle @ to_string h finalThemeStyle)"

section \<open>The logger\<close>

text \<open>
  The configuration is a plain object: a finite map from property names to values.
  Reading a key it does not hold gives \<open>undefined\<close>.
\<close>

type_synonym config = "jsstring \<rightharpoonup> jsval"

record logger =
  config :: config

definition cfg_get :: "config \<Rightarrow> jsstring \<Rightarrow> jsval" where
  "cfg_get cfg key = (case cfg key of None \<Rightarrow> JUndefined | Some v \<Rightarrow> v)"

definition constructor :: logger where
  "constructor =
     \<lparr>config =
        [js ''theme'' \<mapsto> JStr (js ''dark''),
         js ''showDate'' \<mapsto> JBool True,
         js ''showFilename'' \<mapsto> JBool True,
         js ''showLineNumber'' \<mapsto> JBool True,
         js ''showLogLevel'' \<mapsto> JBool True,
         js ''useEmojis'' \<mapsto> JBool True,
         js ''disable'' \<mapsto> JBool False,
         js ''errorHandling'' \<mapsto> JStr (js ''silent'')]\<rparr>"

definition init :: "logger \<Rightarrow> config option \<Rightarrow> logger" where
  \<comment> \<open>\<open>this.config = { ...this.config, ...userConfig }\<close>; \<open>None\<close> is the omitted
      argument, which defaults to \<open>{}\<close>\<close>
  "init lg userConfig =
     lg\<lparr>config := config lg ++ (case userConfig of None \<Rightarrow> Map.empty | Some u \<Rightarrow> u)\<rparr>"

text \<open>
  What a call of \<open>log\<close> does to the outside is recorded as a list of events: a stack
  capture by \<open>findRealCaller\<close>, and every call of \<open>console.log\<close> with its arguments.
\<close>

datatype event = StackProbe | Print "jsval list"

record log_result =
  events :: "event list"
  thrown :: "error option"

definition arg0 :: "jsval list \<Rightarrow> jsval" where
  \<comment> \<open>\<open>args[0]\<close>\<close>
  "arg0 args = (case args of [] \<Rightarrow> JUndefined | a # _ \<Rightarrow> a)"

definition level_and_args :: "jsval list \<Rightarrow> jsval \<times> jsval list" where
  \<comment> \<open>lines 71 to 76: the values of \<open>logLevel\<close> and of the variable \<open>args\<close> after them\<close>
  "level_and_args args =
     (let logLevel = detectLogLevel (arg0 args)
      in if truthy logLevel then (logLevel, drop 1 args) else (JStr (js ''[LOG]''), args))"

definition prefix_parts :: "host \<Rightarrow> config \<Rightarrow> jsval \<Rightarrow> descriptor \<Rightarrow> jsval list" where
  \<comment> \<open>\<open>prefixParts\<close> after line 108\<close>
  "prefix_parts h cfg logLevel d =
     (let showDate = cfg_get cfg (js ''showDate'');
          showFilename = cfg_get cfg (js ''showFilename'');
          showLineNumber = cfg_get cfg (js ''showLineNumber'');
          showLogLevel = cfg_get cfg (js ''showLogLevel'');
          useEmojis = cfg_get cfg (js ''useEmojis'');
          emoji = getLogLevelEmoji h logLevel
      in (if truthy useEmojis then [emoji] else []) @
         (if truthy showDate then [JStr (js ''['' @ locale_string h @ js '']'')] else []) @
         (if truthy showFilename \<and> fileName d \<noteq> js ''unknown''
          then [JStr (js ''['' @ fileName d @ js '']'')] else []) @
         (if truthy showLineNumber \<and> line d \<noteq> js ''?''
          then [JStr (js ''(line '' @ line d @ js '')'')] else []) @
         (if functionName d \<noteq> [] \<and> functionName d \<noteq> js ''Global Scope''
          then [JStr (js ''{'' @ functionName d @ js ''}'')] else []) @
         [logLevel])"

definition log_try :: "host \<Rightarrow> config \<Rightarrow> jsval list \<Rightarrow> jsval list \<times> event list \<times> error option" where
  \<comment> \<open>The \<open>try\<close> block. It gives the value of the variable \<open>args\<close> when the block is
      left, the events so far, and the error raised in it, if any.\<close>
  "log_try h cfg args0 =
     (let theme = cfg_get cfg (js ''theme'');
          (logLevel, args) = level_and_args args0
      in case findRealCaller (err_stack h) of
           Inl e \<Rightarrow> (args, [StackProbe], Some e)
         | Inr d \<Rightarrow>
             (let prefix = join h (js '' '') (prefix_parts h cfg logLevel d) @ js '' '';
                  call = JStr (js ''%c'' @ prefix) # JStr (getThemeStyles h theme logLevel) # args
              in (args, [StackProbe, Print call], console_log h call)))"

definition log :: "host \<Rightarrow> logger \<Rightarrow> jsval list \<Rightarrow> log_result" where
  "log h lg args0 =
     (if truthy (cfg_get (config lg) (js ''disable'')) then \<lparr>events = [], thrown = None\<rparr>
      else
        (case log_try h (config lg) args0 of
           (args, evs, None) \<Rightarrow> \<lparr>events = evs, thrown = None\<rparr>
         | (args, evs, Some e) \<Rightarrow>
             if cfg_get (config lg) (js ''errorHandling'') = JStr (js ''fallback'')
             then \<lparr>events = evs @ [Print args], thrown = console_log h args\<rparr>
             else if cfg_get (config lg) (js ''errorHandling'') = JStr (js ''throw'')
             then \<lparr>events = evs, thrown = Some e\<rparr>
             else \<lparr>events = evs, thrown = None\<rparr>))"

section \<open>Vocabulary of the properties\<close>

definition final_segment :: "jsstring \<Rightarrow> jsstring" where
  \<comment> \<open>what follows the last forward or backward slash of a path\<close>
  "final_segment p = rev (takeWhile (\<lambda>c. \<not> is_path_separator c) (rev p))"

definition skipped :: "jsstring \<Rightarrow> bool" where
  \<comment> \<open>a line that does not match the frame pattern, or whose match names the logger\<close>
  "skipped l =
     (case match_frame l of None \<Rightarrow> True | Some m \<Rightarrow> is_logger_reference (g2 m) (g1 m))"

text \<open>A host for the examples: it prints without raising.\<close>

definition example_host :: "jsstring option \<Rightarrow> host" where
  "example_host stack =
     \<lparr>err_stack = stack,
      locale_string = js ''1/2/2026, 10:00:00 AM'',
      console_log = (\<lambda>call. None),
      object_text = (\<lambda>r. js ''[object Object]''),
      native_text = (\<lambda>k. js ''function () { [native code] }'')\<rparr>"

section \<open>Splitting and path segments\<close>

lemma split_on_not_Nil: "split_on sep s \<noteq> []"
  by (induction s) (auto split: list.splits)

lemma split_on_pieces: "p \<in> set (split_on sep s) \<Longrightarrow> list_all (\<lambda>c. \<not> sep c) p"
proof (induction s arbitrary: p)
  case Nil
  then show ?case by simp
next
  case (Cons c cs)
  show ?case
  proof (cases "sep c")
    case True
    with Cons show ?thesis by auto
  next
    case False
    obtain q qs where q: "split_on sep cs = q # qs"
      using split_on_not_Nil [of sep cs] by (cases "split_on sep cs") auto
    with False Cons.prems have "p = c # q \<or> p \<in> set qs" by auto
    then show ?thesis
    proof
      assume "p = c # q"
      moreover have "list_all (\<lambda>c. \<not> sep c) q" using Cons.IH [of q] q by simp
      ultimately show ?thesis using False by simp
    next
      assume "p \<in> set qs"
      then show ?thesis using Cons.IH [of p] q by simp
    qed
  qed
qed

lemma split_on_snoc:
  "split_on sep (s @ [c]) =
     (if sep c then split_on sep s @ [[]]
      else butlast (split_on sep s) @ [last (split_on sep s) @ [c]])"
proof (induction s)
  case Nil
  then show ?case by simp
next
  case (Cons a s)
  obtain q qs where q: "split_on sep s = q # qs"
    using split_on_not_Nil [of sep s] by (cases "split_on sep s") auto
  obtain q' qs' where q': "split_on sep (s @ [c]) = q' # qs'"
    using split_on_not_Nil [of sep "s @ [c]"] by (cases "split_on sep (s @ [c])") auto
  show ?case
    using Cons q q' by (auto split: if_splits list.splits)
qed

lemma pop_last: "pop ps = (if ps = [] then [] else last ps)"
  by (cases ps rule: rev_cases) (simp_all add: pop_def)

lemma last_split_on_rev:
  "last (split_on sep (rev s)) = rev (takeWhile (\<lambda>c. \<not> sep c) s)"
  by (induction s) (simp_all add: split_on_snoc split_on_not_Nil)

lemma pop_split_on: "pop (split_on is_path_separator p) = final_segment p"
  using last_split_on_rev [of is_path_separator "rev p"]
  by (simp add: pop_last split_on_not_Nil final_segment_def)

lemma final_segment_no_separator: "list_all (\<lambda>c. \<not> is_path_separator c) (final_segment p)"
  unfolding final_segment_def list_all_iff
  by (auto dest: set_takeWhileD)

section \<open>What a match of the frame pattern holds\<close>

lemma lit_SomeD: "lit p k s = Some r \<Longrightarrow> \<exists>rest. s = p @ rest \<and> k rest = Some r"
  by (induction p k s rule: lit.induct) (auto split: if_splits)

lemma lazy_star_SomeD:
  "lazy_star X k taken s = Some r \<Longrightarrow>
     \<exists>a b. s = a @ b \<and> list_all X a \<and> k (taken @ a) b = Some r"
proof (induction s arbitrary: taken)
  case Nil
  then show ?case by simp
next
  case (Cons c cs)
  show ?case
  proof (cases "k taken (c # cs)")
    case (Some r')
    with Cons.prems have "k (taken @ []) (c # cs) = Some r" by simp
    then show ?thesis by (intro exI [of _ "[]"] exI [of _ "c # cs"]) simp
  next
    case None
    with Cons.prems have c: "X c" and rec: "lazy_star X k (taken @ [c]) cs = Some r"
      by (auto split: if_splits)
    from Cons.IH [OF rec] obtain a b where
      "cs = a @ b" "list_all X a" "k ((taken @ [c]) @ a) b = Some r" by blast
    with c show ?thesis by (intro exI [of _ "c # a"] exI [of _ b]) simp
  qed
qed

lemma greedy_star_SomeD:
  "greedy_star X k taken s = Some r \<Longrightarrow>
     \<exists>a b. s = a @ b \<and> list_all X a \<and> k (taken @ a) b = Some r"
proof (induction s arbitrary: taken)
  case Nil
  then show ?case by simp
next
  case (Cons c cs)
  show ?case
  proof (cases "X c \<and> greedy_star X k (taken @ [c]) cs \<noteq> None")
    case True
    with Cons.prems have rec: "greedy_star X k (taken @ [c]) cs = Some r"
      by (auto split: option.splits)
    from Cons.IH [OF rec] obtain a b where
      "cs = a @ b" "list_all X a" "k ((taken @ [c]) @ a) b = Some r" by blast
    with True show ?thesis by (intro exI [of _ "c # a"] exI [of _ b]) simp
  next
    case False
    with Cons.prems have "k (taken @ []) (c # cs) = Some r"
      by (auto split: if_splits option.splits)
    then show ?thesis by (intro exI [of _ "[]"] exI [of _ "c # cs"]) simp
  qed
qed

lemma lazy_plus_SomeD:
  "lazy_plus X k s = Some r \<Longrightarrow>
     \<exists>a b. s = a @ b \<and> a \<noteq> [] \<and> list_all X a \<and> k a b = Some r"
proof -
  assume a: "lazy_plus X k s = Some r"
  then obtain c cs where s: "s = c # cs" and c: "X c" and rec: "lazy_star X k [c] cs = Some r"
    by (auto simp: lazy_plus_def split: list.splits if_splits)
  from lazy_star_SomeD [OF rec] obtain a b where
    "cs = a @ b" "list_all X a" "k ([c] @ a) b = Some r" by blast
  with s c show ?thesis by (intro exI [of _ "c # a"] exI [of _ b]) simp
qed

lemma greedy_plus_SomeD:
  "greedy_plus X k s = Some r \<Longrightarrow>
     \<exists>a b. s = a @ b \<and> a \<noteq> [] \<and> list_all X a \<and> k a b = Some r"
proof -
  assume a: "greedy_plus X k s = Some r"
  then obtain c cs where s: "s = c # cs" and c: "X c" and rec: "greedy_star X k [c] cs = Some r"
    by (auto simp: greedy_plus_def split: list.splits if_splits)
  from greedy_star_SomeD [OF rec] obtain a b where
    "cs = a @ b" "list_all X a" "k ([c] @ a) b = Some r" by blast
  with s c show ?thesis by (intro exI [of _ "c # a"] exI [of _ b]) simp
qed

lemma greedy_opt_SomeD: "greedy_opt p k s = Some r \<Longrightarrow> \<exists>rest. k rest = Some r"
  by (auto simp: greedy_opt_def split: list.splits if_splits option.splits)

lemma regexp_exec_SomeD: "regexp_exec m s = Some r \<Longrightarrow> \<exists>rest. m rest = Some r"
  by (induction s) (auto split: option.splits)

lemma frame_pattern_groups:
  assumes "frame_pattern s = Some m"
  shows "list_all dot (g1 m) \<and> g2 m \<noteq> [] \<and> list_all dot (g2 m) \<and>
         g3 m \<noteq> [] \<and> list_all digit (g3 m) \<and> g4 m \<noteq> [] \<and> list_all digit (g4 m)"
proof -
  from assms obtain s1 where
    "lazy_star dot (\<lambda>m1.
          lit (js '' '')
            (greedy_opt 0x28
               (lazy_plus dot (\<lambda>m2.
                  lit (js '':'')
                    (greedy_plus digit (\<lambda>m3.
                       lit (js '':'')
                         (greedy_plus digit (\<lambda>m4.
                            greedy_opt 0x29
                              (\<lambda>rest. Some \<lparr>g1 = m1, g2 = m2, g3 = m3, g4 = m4\<rparr>))))))))) [] s1 = Some m"
    unfolding frame_pattern_def by (blast dest: lit_SomeD)
  then obtain m1 s2 where m1: "list_all dot m1" and
    "lit (js '' '')
            (greedy_opt 0x28
               (lazy_plus dot (\<lambda>m2.
                  lit (js '':'')
                    (greedy_plus digit (\<lambda>m3.
                       lit (js '':'')
                         (greedy_plus digit (\<lambda>m4.
                            greedy_opt 0x29
                              (\<lambda>rest. Some \<lparr>g1 = m1, g2 = m2, g3 = m3, g4 = m4\<rparr>)))))))) s2 = Some m"
    by (force dest!: lazy_star_SomeD)
  then obtain s3 where
    "lazy_plus dot (\<lambda>m2.
                  lit (js '':'')
                    (greedy_plus digit (\<lambda>m3.
                       lit (js '':'')
                         (greedy_plus digit (\<lambda>m4.
                            greedy_opt 0x29
                              (\<lambda>rest. Some \<lparr>g1 = m1, g2 = m2, g3 = m3, g4 = m4\<rparr>)))))) s3 = Some m"
    by (blast dest: lit_SomeD greedy_opt_SomeD)
  then obtain m2 s4 where m2: "m2 \<noteq> []" "list_all dot m2" and
    "lit (js '':'')
                    (greedy_plus digit (\<lambda>m3.
                       lit (js '':'')
                         (greedy_plus digit (\<lambda>m4.
                            greedy_opt 0x29
                              (\<lambda>rest. Some \<lparr>g1 = m1, g2 = m2, g3 = m3, g4 = m4\<rparr>))))) s4 = Some m"
    by (blast dest: lazy_plus_SomeD)
  then obtain s5 where
    "greedy_plus digit (\<lambda>m3.
                       lit (js '':'')
                         (greedy_plus digit (\<lambda>m4.
                            greedy_opt 0x29
                              (\<lambda>rest. Some \<lparr>g1 = m1, g2 = m2, g3 = m3, g4 = m4\<rparr>)))) s5 = Some m"
    by (blast dest: lit_SomeD)
  then obtain m3 s6 where m3: "m3 \<noteq> []" "list_all digit m3" and
    "lit (js '':'')
                         (greedy_plus digit (\<lambda>m4.
                            greedy_opt 0x29
                              (\<lambda>rest. Some \<lparr>g1 = m1, g2 = m2, g3 = m3, g4 = m4\<rparr>))) s6 = Some m"
    by (blast dest: greedy_plus_SomeD)
  then obtain s7 where
    "greedy_plus digit (\<lambda>m4.
                            greedy_opt 0x29
                              (\<lambda>rest. Some \<lparr>g1 = m1, g2 = m2, g3 = m3, g4 = m4\<rparr>)) s7 = Some m"
    by (blast dest: lit_SomeD)
  then obtain m4 s8 where m4: "m4 \<noteq> []" "list_all digit m4" and
    "greedy_opt 0x29 (\<lambda>rest. Some \<lparr>g1 = m1, g2 = m2, g3 = m3, g4 = m4\<rparr>) s8 = Some m"
    by (blast dest: greedy_plus_SomeD)
  then have "m = \<lparr>g1 = m1, g2 = m2, g3 = m3, g4 = m4\<rparr>"
    by (auto dest: greedy_opt_SomeD)
  with m1 m2 m3 m4 show ?thesis by simp
qed

lemma match_frame_groups:
  "match_frame l = Some m \<Longrightarrow>
     list_all dot (g1 m) \<and> g2 m \<noteq> [] \<and> list_all dot (g2 m) \<and>
     g3 m \<noteq> [] \<and> list_all digit (g3 m) \<and> g4 m \<noteq> [] \<and> list_all digit (g4 m)"
  unfolding match_frame_def
  by (blast dest: regexp_exec_SomeD frame_pattern_groups)

section \<open>The caller that findRealCaller returns\<close>

lemma global_scope_no_marker:
  "\<not> str_includes (js ''Global Scope'') (js ''ConsoleLogExtension'')"
  by (simp add: js_def)

lemma logger_reference_defaults:
  assumes "match_frame l = Some m"
  shows "is_logger_reference (or_else (g2 m) (js ''unknown'')) (or_else (g1 m) (js ''Global Scope''))
           = is_logger_reference (g2 m) (g1 m)"
proof -
  have "g2 m \<noteq> []" using match_frame_groups [OF assms] by simp
  moreover have "\<not> str_includes [] (js ''ConsoleLogExtension'')" by (simp add: js_def)
  ultimately show ?thesis
    using global_scope_no_marker by (simp add: or_else_def is_logger_reference_def)
qed

lemma scan_frames_skip: "skipped l \<Longrightarrow> scan_frames (l # ls) = scan_frames ls"
  by (auto simp: skipped_def logger_reference_defaults Let_def split: option.splits)

lemma scan_frames_skip_all: "list_all skipped before \<Longrightarrow> scan_frames (before @ ls) = scan_frames ls"
  by (induction before) (simp_all add: scan_frames_skip del: scan_frames.simps)

lemma scan_frames_hit:
  assumes "match_frame l = Some m" "\<not> is_logger_reference (g2 m) (g1 m)"
  shows "scan_frames (l # ls) =
           \<lparr>functionName = (if g1 m = [] \<or> g1 m = js ''<anonymous>'' then js ''Global Scope'' else g1 m),
            fileName = (if final_segment (g2 m) = [] then js ''unknown'' else final_segment (g2 m)),
            line = g3 m\<rparr>"
proof -
  have g: "g2 m \<noteq> []" "g3 m \<noteq> []" using match_frame_groups [OF assms(1)] by simp_all
  have anon: "js ''Global Scope'' \<noteq> js ''<anonymous>''" by (simp add: js_def)
  show ?thesis
    using assms g anon logger_reference_defaults [OF assms(1)]
    by (simp add: Let_def or_else_def pop_split_on)
qed

lemma scan_frames_cases:
  "scan_frames ls = unknown_descriptor \<or>
   (\<exists>l \<in> set ls. \<exists>m. match_frame l = Some m \<and> \<not> is_logger_reference (g2 m) (g1 m) \<and>
      scan_frames ls =
        \<lparr>functionName = (if g1 m = [] \<or> g1 m = js ''<anonymous>'' then js ''Global Scope'' else g1 m),
         fileName = (if final_segment (g2 m) = [] then js ''unknown'' else final_segment (g2 m)),
         line = g3 m\<rparr>)"
proof (induction ls)
  case Nil
  then show ?case by simp
next
  case (Cons l ls)
  show ?case
  proof (cases "skipped l")
    case True
    then have eq: "scan_frames (l # ls) = scan_frames ls" by (rule scan_frames_skip)
    show ?thesis unfolding eq using Cons.IH by (meson list.set_intros(2))
  next
    case False
    then obtain m where m: "match_frame l = Some m" "\<not> is_logger_reference (g2 m) (g1 m)"
      by (auto simp: skipped_def split: option.splits)
    have "l \<in> set (l # ls)" by simp
    with scan_frames_hit [OF m, of ls] m show ?thesis by blast
  qed
qed

text \<open>
  C1, as amended. When the lines of the trace from index 1 on start with lines that are
  skipped (no match of the frame pattern, or a match that names the logger) and then hold
  a line whose match does not name the logger, \<open>findRealCaller\<close> returns that frame:
  the function name is the matched symbol name, or \<open>Global Scope\<close> when that name is
  empty or is \<open><anonymous>\<close>; the file is what follows the last forward or backward slash
  of the matched path, or \<open>unknown\<close> when nothing follows it; the line is the matched
  line number as it stands, a nonempty string of decimal digits.
\<close>

theorem findRealCaller_first_surviving_frame:
  assumes "drop 1 (stack_lines trace) = before @ l # after"
    and "list_all skipped before"
    and "match_frame l = Some m"
    and "\<not> is_logger_reference (g2 m) (g1 m)"
  shows "findRealCaller (Some trace) =
           Inr \<lparr>functionName = (if g1 m = [] \<or> g1 m = js ''<anonymous>'' then js ''Global Scope'' else g1 m),
                fileName = (if final_segment (g2 m) = [] then js ''unknown'' else final_segment (g2 m)),
                line = g3 m\<rparr> \<and>
         g3 m \<noteq> [] \<and> list_all digit (g3 m)"
  using assms match_frame_groups [of l m]
  by (simp add: findRealCaller_def scan_frames_skip_all scan_frames_hit del: scan_frames.simps)

theorem findRealCaller_first_surviving_frame_witness:
  "drop 1 (stack_lines (js ''Error'' @ [LF] @
        js ''    at ConsoleLogExtension.findRealCaller (/lib/index.js:133:19)'' @ [LF] @
        js ''    at ConsoleLogExtension.log (/lib/index.js:95:42)'' @ [LF] @
        js ''    at main (/srv/app/main.js:7:3)'')) =
     [js ''at ConsoleLogExtension.findRealCaller (/lib/index.js:133:19)'',
      js ''at ConsoleLogExtension.log (/lib/index.js:95:42)''] @
     js ''at main (/srv/app/main.js:7:3)'' # [] \<and>
   list_all skipped
     [js ''at ConsoleLogExtension.findRealCaller (/lib/index.js:133:19)'',
      js ''at ConsoleLogExtension.log (/lib/index.js:95:42)''] \<and>
   match_frame (js ''at main (/srv/app/main.js:7:3)'') =
     Some \<lparr>g1 = js ''main'', g2 = js ''/srv/app/main.js'', g3 = js ''7'', g4 = js ''3''\<rparr> \<and>
   findRealCaller (Some (js ''Error'' @ [LF] @
        js ''    at ConsoleLogExtension.findRealCaller (/lib/index.js:133:19)'' @ [LF] @
        js ''    at ConsoleLogExtension.log (/lib/index.js:95:42)'' @ [LF] @
        js ''    at main (/srv/app/main.js:7:3)'')) =
     Inr \<lparr>functionName = js ''main'', fileName = js ''main.js'', line = js ''7''\<rparr>"
proof -
  let ?trace = "js ''Error'' @ [LF] @
        js ''    at ConsoleLogExtension.findRealCaller (/lib/index.js:133:19)'' @ [LF] @
        js ''    at ConsoleLogExtension.log (/lib/index.js:95:42)'' @ [LF] @
        js ''    at main (/srv/app/main.js:7:3)''"
  let ?before = "[js ''at ConsoleLogExtension.findRealCaller (/lib/index.js:133:19)'',
      js ''at ConsoleLogExtension.log (/lib/index.js:95:42)'']"
  let ?l = "js ''at main (/srv/app/main.js:7:3)''"
  let ?m = "\<lparr>g1 = js ''main'', g2 = js ''/srv/app/main.js'', g3 = js ''7'', g4 = js ''3''\<rparr>"
  have h1: "drop 1 (stack_lines ?trace) = ?before @ ?l # []"
    by code_simp
  have h2: "list_all skipped ?before"
    by code_simp
  have h3: "match_frame ?l = Some ?m"
    by code_simp
  have h4: "\<not> is_logger_reference (g2 ?m) (g1 ?m)"
    by code_simp
  have e1: "(if g1 ?m = [] \<or> g1 ?m = js ''<anonymous>'' then js ''Global Scope'' else g1 ?m)
              = js ''main''"
    by code_simp
  have e2: "(if final_segment (g2 ?m) = [] then js ''unknown'' else final_segment (g2 ?m))
              = js ''main.js''"
    by code_simp
  have e3: "g3 ?m = js ''7''"
    by simp
  from findRealCaller_first_surviving_frame [OF h1 h2 h3 h4] h1 h2 h3 show ?thesis
    unfolding e1 e2 e3 by blast
qed

text \<open>
  C1 as it is stated fails in two places. In the frame \<open>at run (/srv/app/:12:3)\<close> the
  matched path ends with a slash: its final segment is empty, and the file returned is
  \<open>unknown\<close>. In the frame \<open>at  /srv/app/x.js:12:3\<close> (two spaces) the matched symbol name
  is empty, and the function name returned is \<open>Global Scope\<close>, while the claim keeps
  every name but \<open><anonymous>\<close> as it is.
\<close>

theorem findRealCaller_first_surviving_frame_counterexample:
  "match_frame (js ''at run (/srv/app/:12:3)'') =
     Some \<lparr>g1 = js ''run'', g2 = js ''/srv/app/'', g3 = js ''12'', g4 = js ''3''\<rparr> \<and>
   \<not> is_logger_reference (js ''/srv/app/'') (js ''run'') \<and>
   final_segment (js ''/srv/app/'') = [] \<and>
   findRealCaller (Some (js ''Error'' @ [LF] @ js ''    at run (/srv/app/:12:3)'')) =
     Inr \<lparr>functionName = js ''run'', fileName = js ''unknown'', line = js ''12''\<rparr> \<and>
   findRealCaller (Some (js ''Error'' @ [LF] @ js ''    at run (/srv/app/:12:3)'')) \<noteq>
     Inr \<lparr>functionName = js ''run'', fileName = final_segment (js ''/srv/app/''), line = js ''12''\<rparr> \<and>
   match_frame (js ''at  /srv/app/x.js:12:3'') =
     Some \<lparr>g1 = [], g2 = js ''/srv/app/x.js'', g3 = js ''12'', g4 = js ''3''\<rparr> \<and>
   \<not> is_logger_reference (js ''/srv/app/x.js'') [] \<and>
   findRealCaller (Some (js ''Error'' @ [LF] @ js ''    at  /srv/app/x.js:12:3'')) =
     Inr \<lparr>functionName = js ''Global Scope'', fileName = js ''x.js'', line = js ''12''\<rparr> \<and>
   findRealCaller (Some (js ''Error'' @ [LF] @ js ''    at  /srv/app/x.js:12:3'')) \<noteq>
     Inr \<lparr>functionName = [], fileName = final_segment (js ''/srv/app/x.js''), line = js ''12''\<rparr>"
  by code_simp




text \<open>
  C10. Whatever the trace, the three fields of the descriptor that \<open>findRealCaller\<close>
  returns are nonempty strings, and the file holds no forward and no backward slash: it is
  \<open>unknown\<close>, or the nonempty final segment of the path of a frame matched on a line
  after the header.
\<close>

theorem findRealCaller_fields:
  assumes "findRealCaller (Some trace) = Inr d"
  shows "functionName d \<noteq> [] \<and> fileName d \<noteq> [] \<and> line d \<noteq> [] \<and>
         list_all (\<lambda>c. \<not> is_path_separator c) (fileName d) \<and>
         (fileName d = js ''unknown'' \<or>
          (\<exists>l \<in> set (drop 1 (stack_lines trace)). \<exists>m.
              match_frame l = Some m \<and> final_segment (g2 m) \<noteq> [] \<and>
              fileName d = final_segment (g2 m)))"
proof -
  let ?ls = "drop 1 (stack_lines trace)"
  have d: "d = scan_frames ?ls" using assms by (simp add: findRealCaller_def)
  have nonempty: "js ''Global Scope'' \<noteq> []" "js ''unknown'' \<noteq> []" "js ''?'' \<noteq> []"
    by (simp_all add: js_def)
  have unk: "list_all (\<lambda>c. \<not> is_path_separator c) (js ''unknown'')"
    by (simp add: js_def is_path_separator_def)
  from scan_frames_cases [of ?ls] show ?thesis
  proof
    assume "scan_frames ?ls = unknown_descriptor"
    with d nonempty unk show ?thesis by (simp add: unknown_descriptor_def)
  next
    assume "\<exists>l \<in> set ?ls. \<exists>m. match_frame l = Some m \<and> \<not> is_logger_reference (g2 m) (g1 m) \<and>
      scan_frames ?ls =
        \<lparr>functionName = (if g1 m = [] \<or> g1 m = js ''<anonymous>'' then js ''Global Scope'' else g1 m),
         fileName = (if final_segment (g2 m) = [] then js ''unknown'' else final_segment (g2 m)),
         line = g3 m\<rparr>"
    then obtain l m where l: "l \<in> set ?ls" and m: "match_frame l = Some m"
      and r: "scan_frames ?ls =
        \<lparr>functionName = (if g1 m = [] \<or> g1 m = js ''<anonymous>'' then js ''Global Scope'' else g1 m),
         fileName = (if final_segment (g2 m) = [] then js ''unknown'' else final_segment (g2 m)),
         line = g3 m\<rparr>" by blast
    have g3: "g3 m \<noteq> []" using match_frame_groups [OF m] by simp
    show ?thesis
    proof (cases "final_segment (g2 m) = []")
      case True
      with d r g3 nonempty unk show ?thesis by simp
    next
      case False
      with d r g3 nonempty l m final_segment_no_separator [of "g2 m"] show ?thesis by auto
    qed
  qed
qed

theorem findRealCaller_fields_witness:
  "findRealCaller (Some (js ''Error'' @ [LF] @ js ''  at main (C:'' @ [0x5C] @ js ''app'' @ [0x5C] @ js ''main.js:7:3)'')) =
     Inr \<lparr>functionName = js ''main'', fileName = js ''main.js'', line = js ''7''\<rparr> \<and>
   functionName \<lparr>functionName = js ''main'', fileName = js ''main.js'', line = js ''7''\<rparr> \<noteq> [] \<and>
   fileName \<lparr>functionName = js ''main'', fileName = js ''main.js'', line = js ''7''\<rparr> \<noteq> [] \<and>
   line \<lparr>functionName = js ''main'', fileName = js ''main.js'', line = js ''7''\<rparr> \<noteq> [] \<and>
   list_all (\<lambda>c. \<not> is_path_separator c)
     (fileName \<lparr>functionName = js ''main'', fileName = js ''main.js'', line = js ''7''\<rparr>)"
proof -
  let ?trace = "js ''Error'' @ [LF] @ js ''  at main (C:'' @ [0x5C] @ js ''app'' @ [0x5C] @ js ''main.js:7:3)''"
  let ?d = "\<lparr>functionName = js ''main'', fileName = js ''main.js'', line = js ''7''\<rparr>"
  have h: "findRealCaller (Some ?trace) = Inr ?d"
    by code_simp
  from findRealCaller_fields [OF h] h show ?thesis by blast
qed

section \<open>The configuration\<close>

lemma map_add_twice: "m ++ a ++ a = m ++ a"
  by (rule ext) (simp add: map_add_def split: option.splits)

text \<open>
  C7. \<open>init\<close> is idempotent: merging the empty object (or calling \<open>init\<close> with no
  argument) leaves the logger as it is, and merging the same partial configuration twice
  gives what merging it once gives.
\<close>

theorem init_idempotent:
  "init lg (Some Map.empty) = lg \<and> init lg None = lg \<and> init (init lg x) x = init lg x"
  by (cases x) (simp_all add: init_def map_add_twice)

theorem init_idempotent_witness:
  "init constructor (Some Map.empty) = constructor \<and>
   init (init constructor (Some [js ''disable'' \<mapsto> JBool True, js ''verbose'' \<mapsto> JNum 2]))
        (Some [js ''disable'' \<mapsto> JBool True, js ''verbose'' \<mapsto> JNum 2]) =
   init constructor (Some [js ''disable'' \<mapsto> JBool True, js ''verbose'' \<mapsto> JNum 2])"
  using init_idempotent [of constructor "Some [js ''disable'' \<mapsto> JBool True, js ''verbose'' \<mapsto> JNum 2]"]
  by simp

text \<open>
  C8. After construction, \<open>init({theme: "light"})\<close> gives the default configuration with
  \<open>theme\<close> set to \<open>light\<close> and every other key as it was; and a merge never removes a
  key: every key of the configuration before \<open>init\<close> is a key after it.
\<close>

theorem init_merge:
  "init constructor (Some [js ''theme'' \<mapsto> JStr (js ''light'')]) =
     constructor\<lparr>config := (config constructor)(js ''theme'' \<mapsto> JStr (js ''light''))\<rparr> \<and>
   (\<forall>k. k \<noteq> js ''theme'' \<longrightarrow>
      config (init constructor (Some [js ''theme'' \<mapsto> JStr (js ''light'')])) k = config constructor k) \<and>
   dom (config lg) \<subseteq> dom (config (init lg x))"
proof (intro conjI)
  show "init constructor (Some [js ''theme'' \<mapsto> JStr (js ''light'')]) =
     constructor\<lparr>config := (config constructor)(js ''theme'' \<mapsto> JStr (js ''light''))\<rparr>"
    by (simp add: init_def)
  show "\<forall>k. k \<noteq> js ''theme'' \<longrightarrow>
      config (init constructor (Some [js ''theme'' \<mapsto> JStr (js ''light'')])) k = config constructor k"
    by (simp add: init_def)
  show "dom (config lg) \<subseteq> dom (config (init lg x))"
    by (cases x) (auto simp: init_def)
qed

theorem init_merge_witness:
  "config (init constructor (Some [js ''theme'' \<mapsto> JStr (js ''light'')])) (js ''theme'') = Some (JStr (js ''light'')) \<and>
   config (init constructor (Some [js ''theme'' \<mapsto> JStr (js ''light'')])) (js ''showDate'') = Some (JBool True) \<and>
   config (init constructor (Some [js ''theme'' \<mapsto> JStr (js ''light'')])) (js ''errorHandling'') = Some (JStr (js ''silent'')) \<and>
   js ''showDate'' \<in> dom (config (init constructor (Some [js ''showDate'' \<mapsto> JUndefined])))"
proof -
  have k: "js ''showDate'' \<noteq> js ''theme''" "js ''errorHandling'' \<noteq> js ''theme''"
    by (simp_all add: js_def)
  have d: "js ''showDate'' \<in> dom (config constructor)"
    by (simp add: constructor_def)
  have c: "config constructor (js ''showDate'') = Some (JBool True)"
    "config constructor (js ''errorHandling'') = Some (JStr (js ''silent''))"
    by (simp_all add: constructor_def js_def)
  from init_merge [of constructor "Some [js ''showDate'' \<mapsto> JUndefined]"] k d c show ?thesis
    by auto
qed

section \<open>The log function\<close>

text \<open>
  C6. When the \<open>disable\<close> value of the configuration is true (or any truthy value),
  \<open>log\<close> returns at once: no stack capture and no call of \<open>console.log\<close>.
\<close>

theorem log_disabled:
  "truthy (cfg_get (config lg) (js ''disable'')) \<Longrightarrow>
     log h lg args = \<lparr>events = [], thrown = None\<rparr>"
  by (simp add: log_def)

theorem log_disabled_witness:
  "truthy (cfg_get (config (init constructor (Some [js ''disable'' \<mapsto> JBool True]))) (js ''disable'')) \<and>
   log (example_host (Some (js ''Error''))) (init constructor (Some [js ''disable'' \<mapsto> JBool True]))
       [JStr (js ''anything'')] = \<lparr>events = [], thrown = None\<rparr>"
proof -
  have h: "truthy (cfg_get (config (init constructor (Some [js ''disable'' \<mapsto> JBool True]))) (js ''disable''))"
    by (simp add: init_def cfg_get_def)
  from log_disabled [OF h] h show ?thesis by blast
qed

lemma level_and_args_cases:
  "level_and_args args = (JStr (js ''[LOG]''), args) \<or>
   (\<exists>tok. tok \<in> {js ''[INFO]'', js ''[WARNING]'', js ''[ERROR]'', js ''[DEBUG]''} \<and>
      level_and_args args = (JStr tok, drop 1 args))"
  by (auto simp: level_and_args_def detectLogLevel_def knownLevels_def Let_def)

lemma level_is_string: "\<exists>tok. tok \<noteq> [] \<and> fst (level_and_args args) = JStr tok"
  using level_and_args_cases [of args] by (auto simp: js_def)

lemma join_snoc:
  "x \<noteq> JUndefined \<Longrightarrow> x \<noteq> JNull \<Longrightarrow>
     join h sep (xs @ [x]) = (if xs = [] then to_string h x else join h sep xs @ sep @ to_string h x)"
  by (induction h sep xs rule: join.induct) auto

lemma prefix_ends_with_level:
  "\<exists>before. join h (js '' '') (prefix_parts h cfg (JStr tok) d) @ js '' ''
              = before @ tok @ js '' ''"
proof -
  obtain xs where xs: "prefix_parts h cfg (JStr tok) d = xs @ [JStr tok]"
    by (simp add: prefix_parts_def Let_def)
  show ?thesis unfolding xs by (simp add: join_snoc)
qed

lemma log_try_some_stack:
  "err_stack h = Some trace \<Longrightarrow>
   \<exists>d. findRealCaller (err_stack h) = Inr d \<and>
     log_try h cfg args =
       (snd (level_and_args args),
        [StackProbe,
         Print (JStr (js ''%c'' @ join h (js '' '') (prefix_parts h cfg (fst (level_and_args args)) d) @ js '' '')
                # JStr (getThemeStyles h (cfg_get cfg (js ''theme'')) (fst (level_and_args args)))
                # snd (level_and_args args))],
        console_log h
          (JStr (js ''%c'' @ join h (js '' '') (prefix_parts h cfg (fst (level_and_args args)) d) @ js '' '')
                # JStr (getThemeStyles h (cfg_get cfg (js ''theme'')) (fst (level_and_args args)))
                # snd (level_and_args args)))"
  by (simp add: log_try_def findRealCaller_def Let_def split: prod.splits)

lemma log_events_shape:
  assumes "\<not> truthy (cfg_get (config lg) (js ''disable''))" "err_stack h = Some trace"
  shows "\<exists>d more. findRealCaller (err_stack h) = Inr d \<and>
     events (log h lg args) =
        StackProbe #
         Print (JStr (js ''%c'' @ join h (js '' '') (prefix_parts h (config lg) (fst (level_and_args args)) d) @ js '' '')
                # JStr (getThemeStyles h (cfg_get (config lg) (js ''theme'')) (fst (level_and_args args)))
                # snd (level_and_args args)) # more"
proof -
  from log_try_some_stack [OF assms(2), of "config lg" args] obtain d where
    d: "findRealCaller (err_stack h) = Inr d" and
    t: "log_try h (config lg) args =
       (snd (level_and_args args),
        [StackProbe,
         Print (JStr (js ''%c'' @ join h (js '' '') (prefix_parts h (config lg) (fst (level_and_args args)) d) @ js '' '')
                # JStr (getThemeStyles h (cfg_get (config lg) (js ''theme'')) (fst (level_and_args args)))
                # snd (level_and_args args))],
        console_log h
          (JStr (js ''%c'' @ join h (js '' '') (prefix_parts h (config lg) (fst (level_and_args args)) d) @ js '' '')
                # JStr (getThemeStyles h (cfg_get (config lg) (js ''theme'')) (fst (level_and_args args)))
                # snd (level_and_args args)))" by blast
  show ?thesis
    using assms(1) d unfolding log_def t by (auto split: option.splits)
qed

lemma log_config_agree:
  assumes agree: "\<And>k. k \<noteq> js ''showLogLevel'' \<Longrightarrow> config lg' k = config lg k"
  shows "log h lg' args = log h lg args"
proof -
  have eqs: "cfg_get (config lg') (js ''disable'') = cfg_get (config lg) (js ''disable'')"
    "cfg_get (config lg') (js ''errorHandling'') = cfg_get (config lg) (js ''errorHandling'')"
    "cfg_get (config lg') (js ''theme'') = cfg_get (config lg) (js ''theme'')"
    "cfg_get (config lg') (js ''showDate'') = cfg_get (config lg) (js ''showDate'')"
    "cfg_get (config lg') (js ''showFilename'') = cfg_get (config lg) (js ''showFilename'')"
    "cfg_get (config lg') (js ''showLineNumber'') = cfg_get (config lg) (js ''showLineNumber'')"
    "cfg_get (config lg') (js ''useEmojis'') = cfg_get (config lg) (js ''useEmojis'')"
    by (simp_all add: cfg_get_def agree js_def)
  have p: "prefix_parts h (config lg') lvl d = prefix_parts h (config lg) lvl d" for lvl d
    by (simp add: prefix_parts_def Let_def eqs)
  have t: "log_try h (config lg') args = log_try h (config lg) args"
    unfolding log_try_def eqs p ..
  show ?thesis unfolding log_def eqs t ..
qed

text \<open>
  C4. The level tag is always appended to the prefix, whatever \<open>showLogLevel\<close> holds:
  two configurations that agree on every key but \<open>showLogLevel\<close> make \<open>log\<close> behave
  the same, and whenever the styled call is made, its first argument ends with the active
  level followed by one space.
\<close>

theorem log_level_tag_always:
  "((\<forall>k. k \<noteq> js ''showLogLevel'' \<longrightarrow> config lg' k = config lg k) \<longrightarrow>
      log h lg' args = log h lg args) \<and>
   (\<not> truthy (cfg_get (config lg) (js ''disable'')) \<and> err_stack h = Some trace \<longrightarrow>
      (\<exists>before style more.
         events (log h lg args) =
           StackProbe #
           Print (JStr (js ''%c'' @ before @ to_string h (fst (level_and_args args)) @ js '' '')
                  # style # snd (level_and_args args)) # more))"
proof (intro conjI impI)
  assume "\<forall>k. k \<noteq> js ''showLogLevel'' \<longrightarrow> config lg' k = config lg k"
  then show "log h lg' args = log h lg args" by (intro log_config_agree) blast
next
  assume a: "\<not> truthy (cfg_get (config lg) (js ''disable'')) \<and> err_stack h = Some trace"
  obtain tok where tok: "fst (level_and_args args) = JStr tok"
    using level_is_string [of args] by blast
  from a have a1: "\<not> truthy (cfg_get (config lg) (js ''disable''))" and a2: "err_stack h = Some trace"
    by simp_all
  from log_events_shape [OF a1 a2, of args] obtain d more where
    e: "events (log h lg args) =
        StackProbe #
         Print (JStr (js ''%c'' @ join h (js '' '') (prefix_parts h (config lg) (fst (level_and_args args)) d) @ js '' '')
                # JStr (getThemeStyles h (cfg_get (config lg) (js ''theme'')) (fst (level_and_args args)))
                # snd (level_and_args args)) # more" by blast
  obtain before where
    b: "join h (js '' '') (prefix_parts h (config lg) (JStr tok) d) @ js '' '' = before @ tok @ js '' ''"
    using prefix_ends_with_level by blast
  have "events (log h lg args) =
           StackProbe #
           Print (JStr (js ''%c'' @ before @ to_string h (fst (level_and_args args)) @ js '' '')
                  # JStr (getThemeStyles h (cfg_get (config lg) (js ''theme'')) (fst (level_and_args args)))
                  # snd (level_and_args args)) # more"
    unfolding e unfolding tok using b by simp
  then show "\<exists>before style more.
         events (log h lg args) =
           StackProbe #
           Print (JStr (js ''%c'' @ before @ to_string h (fst (level_and_args args)) @ js '' '')
                  # style # snd (level_and_args args)) # more"
    by blast
qed

theorem log_level_tag_always_witness:
  "log (example_host (Some (js ''Error'' @ [LF] @ js ''    at main (/srv/app/main.js:7:3)'')))
       (init constructor (Some [js ''showLogLevel'' \<mapsto> JBool False]))
       [JStr (js ''[ERROR]''), JStr (js ''x'')] =
   log (example_host (Some (js ''Error'' @ [LF] @ js ''    at main (/srv/app/main.js:7:3)'')))
       constructor [JStr (js ''[ERROR]''), JStr (js ''x'')] \<and>
   events (log (example_host (Some (js ''Error'' @ [LF] @ js ''    at main (/srv/app/main.js:7:3)'')))
            (init constructor (Some [js ''showLogLevel'' \<mapsto> JBool False]))
            [JStr (js ''[ERROR]''), JStr (js ''x'')]) =
     [StackProbe,
      Print [JStr (js ''%c'' @ [0x201A, 0xF9, 0xE5] @
                   js '' [1/2/2026, 10:00:00 AM] [main.js] (line 7) {main} [ERROR] ''),
             JStr (js ''color: red; font-weight: bold;color: white;''),
             JStr (js ''x'')]]"
proof -
  let ?h = "example_host (Some (js ''Error'' @ [LF] @ js ''    at main (/srv/app/main.js:7:3)''))"
  let ?lg' = "init constructor (Some [js ''showLogLevel'' \<mapsto> JBool False])"
  let ?args = "[JStr (js ''[ERROR]''), JStr (js ''x'')]"
  have agree: "\<forall>k. k \<noteq> js ''showLogLevel'' \<longrightarrow> config ?lg' k = config constructor k"
    by (simp add: init_def)
  have e: "events (log ?h ?lg' ?args) =
     [StackProbe,
      Print [JStr (js ''%c'' @ [0x201A, 0xF9, 0xE5] @
                   js '' [1/2/2026, 10:00:00 AM] [main.js] (line 7) {main} [ERROR] ''),
             JStr (js ''color: red; font-weight: bold;color: white;''),
             JStr (js ''x'')]]"
    by code_simp
  from log_level_tag_always [of ?lg' constructor ?h ?args] agree e show ?thesis by blast
qed

lemma log_resolver_failure:
  assumes "\<not> truthy (cfg_get (config lg) (js ''disable''))" "err_stack h = None"
  shows "log h lg args =
     (if cfg_get (config lg) (js ''errorHandling'') = JStr (js ''fallback'')
      then \<lparr>events = [StackProbe, Print (snd (level_and_args args))],
            thrown = console_log h (snd (level_and_args args))\<rparr>
      else if cfg_get (config lg) (js ''errorHandling'') = JStr (js ''throw'')
      then \<lparr>events = [StackProbe], thrown = Some TypeError\<rparr>
      else \<lparr>events = [StackProbe], thrown = None\<rparr>)"
  using assms by (simp add: log_def log_try_def findRealCaller_def Let_def split: prod.splits)

lemma get_property_absent:
  "key \<notin> fst ` set obj \<Longrightarrow> key \<notin> set object_prototype_names \<Longrightarrow> get_property obj key = JUndefined"
  by (simp add: get_property_def map_of_eq_None_iff [THEN iffD2])

lemma getThemeStyles_unknown_theme:
  assumes "to_string h theme \<notin> {js ''dark'', js ''light'', js ''neon'', js ''minimal''}"
    and "to_string h theme \<notin> set object_prototype_names"
  shows "getThemeStyles h theme level = getThemeStyles h (JStr (js ''dark'')) level"
proof -
  have "to_string h theme \<notin> fst ` set themeStyles"
    using assms(1) by (simp add: themeStyles_def)
  then have "get_property themeStyles (to_string h theme) = JUndefined"
    using assms(2) by (rule get_property_absent)
  then show ?thesis
    by (simp add: getThemeStyles_def js_or_def Let_def)
qed

lemma getLogLevelEmoji_unknown_level:
  assumes "to_string h level \<notin> {js ''[INFO]'', js ''[WARNING]'', js ''[ERROR]'', js ''[DEBUG]'', js ''[LOG]''}"
    and "to_string h level \<notin> set object_prototype_names"
  shows "getLogLevelEmoji h level = getLogLevelEmoji h (JStr (js ''[LOG]''))"
proof -
  have "to_string h level \<notin> fst ` set mapping"
    using assms(1) by (simp add: mapping_def)
  then have "get_property mapping (to_string h level) = JUndefined"
    using assms(2) by (rule get_property_absent)
  moreover have "get_property mapping (js ''[LOG]'') = JStr [0xF8FF, 0xFC, 0xEC, 0xF9]"
    by (simp add: get_property_def mapping_def js_def)
  ultimately show ?thesis
    by (simp add: getLogLevelEmoji_def js_or_def)
qed

text \<open>
  C5. When the first argument is one of the four tokens \<open>[INFO]\<close>, \<open>[WARNING]\<close>,
  \<open>[ERROR]\<close>, \<open>[DEBUG]\<close>, it is removed from the arguments and is the active level;
  for any other first argument (or none) the level is \<open>[LOG]\<close> and the arguments stay as
  they are. The styled call of \<open>console.log\<close> builds its prefix and its style from that
  level and forwards those arguments.
\<close>

theorem log_level_detection:
  "(tok \<in> {js ''[INFO]'', js ''[WARNING]'', js ''[ERROR]'', js ''[DEBUG]''} \<longrightarrow>
      level_and_args (JStr tok # rest) = (JStr tok, rest)) \<and>
   (arg0 args \<notin> {JStr (js ''[INFO]''), JStr (js ''[WARNING]''), JStr (js ''[ERROR]''),
                   JStr (js ''[DEBUG]'')} \<longrightarrow>
      level_and_args args = (JStr (js ''[LOG]''), args)) \<and>
   (\<not> truthy (cfg_get (config lg) (js ''disable'')) \<and> err_stack h = Some trace \<longrightarrow>
      (\<exists>d more. findRealCaller (err_stack h) = Inr d \<and>
         events (log h lg args) =
           StackProbe #
           Print (JStr (js ''%c'' @ join h (js '' '')
                          (prefix_parts h (config lg) (fst (level_and_args args)) d) @ js '' '')
                  # JStr (getThemeStyles h (cfg_get (config lg) (js ''theme''))
                            (fst (level_and_args args)))
                  # snd (level_and_args args)) # more))"
proof (intro conjI impI)
  assume "tok \<in> {js ''[INFO]'', js ''[WARNING]'', js ''[ERROR]'', js ''[DEBUG]''}"
  then show "level_and_args (JStr tok # rest) = (JStr tok, rest)"
    by (auto simp: level_and_args_def detectLogLevel_def knownLevels_def arg0_def js_def)
next
  assume "arg0 args \<notin> {JStr (js ''[INFO]''), JStr (js ''[WARNING]''), JStr (js ''[ERROR]''),
                   JStr (js ''[DEBUG]'')}"
  then show "level_and_args args = (JStr (js ''[LOG]''), args)"
    by (simp add: level_and_args_def detectLogLevel_def knownLevels_def)
next
  assume "\<not> truthy (cfg_get (config lg) (js ''disable'')) \<and> err_stack h = Some trace"
  then show "\<exists>d more. findRealCaller (err_stack h) = Inr d \<and>
         events (log h lg args) =
           StackProbe #
           Print (JStr (js ''%c'' @ join h (js '' '')
                          (prefix_parts h (config lg) (fst (level_and_args args)) d) @ js '' '')
                  # JStr (getThemeStyles h (cfg_get (config lg) (js ''theme''))
                            (fst (level_and_args args)))
                  # snd (level_and_args args)) # more"
    using log_events_shape [of lg h trace args] by blast
qed

theorem log_level_detection_witness:
  "level_and_args (JStr (js ''[ERROR]'') # [JStr (js ''x'')]) = (JStr (js ''[ERROR]''), [JStr (js ''x'')]) \<and>
   level_and_args [JStr (js ''plain'')] = (JStr (js ''[LOG]''), [JStr (js ''plain'')]) \<and>
   events (log (example_host (Some (js ''Error'' @ [LF] @ js ''    at main (/srv/app/main.js:7:3)'')))
            constructor [JStr (js ''plain'')]) =
     [StackProbe,
      Print [JStr (js ''%c'' @ [0xF8FF, 0xFC, 0xEC, 0xF9] @
                   js '' [1/2/2026, 10:00:00 AM] [main.js] (line 7) {main} [LOG] ''),
             JStr (js ''color: white;''),
             JStr (js ''plain'')]]"
proof -
  have t: "js ''[ERROR]'' \<in> {js ''[INFO]'', js ''[WARNING]'', js ''[ERROR]'', js ''[DEBUG]''}"
    by simp
  have p: "arg0 [JStr (js ''plain'')] \<notin> {JStr (js ''[INFO]''), JStr (js ''[WARNING]''),
             JStr (js ''[ERROR]''), JStr (js ''[DEBUG]'')}"
    by (simp add: arg0_def js_def)
  have e: "events (log (example_host (Some (js ''Error'' @ [LF] @ js ''    at main (/srv/app/main.js:7:3)'')))
            constructor [JStr (js ''plain'')]) =
     [StackProbe,
      Print [JStr (js ''%c'' @ [0xF8FF, 0xFC, 0xEC, 0xF9] @
                   js '' [1/2/2026, 10:00:00 AM] [main.js] (line 7) {main} [LOG] ''),
             JStr (js ''color: white;''),
             JStr (js ''plain'')]]"
    by code_simp
  from log_level_detection [of "js ''[ERROR]''" "[JStr (js ''x'')]" "[JStr (js ''plain'')]"] t p e
  show ?thesis by blast
qed

text \<open>
  C3, at the failing input. The host gives no stack text, so \<open>findRealCaller\<close> raises
  inside the \<open>try\<close> block; the policy is \<open>fallback\<close> and the call is
  \<open>log("[ERROR]", "x")\<close>. The variable \<open>args\<close> was reassigned to \<open>args.slice(1)\<close>
  before the error, so the fallback call is \<open>console.log("x")\<close>: the level token that the
  caller passed is not forwarded. (\<open>log_resolver_failure\<close> gives all three policies for
  every argument list.)
\<close>

theorem log_fallback_forwards_sliced_args:
  "log (example_host None)
       (init constructor (Some [js ''errorHandling'' \<mapsto> JStr (js ''fallback'')]))
       [JStr (js ''[ERROR]''), JStr (js ''x'')] =
     \<lparr>events = [StackProbe, Print [JStr (js ''x'')]], thrown = None\<rparr>"
  by code_simp

text \<open>
  C9, at the failing input. The theme \<open>__proto__\<close> is none of the four themes, yet the
  style is not the dark one: the lookup \<open>themeStyles[theme]\<close> finds the property that the
  literal inherits from \<open>Object.prototype\<close>, which is truthy, and its text
  \<open>[object Object]\<close> becomes the style (for \<open>constructor\<close>, the text of a built-in
  function). The emoji lookup returns a function for the level \<open>toString\<close>. The last
  conjunct reaches the style lookup through \<open>init\<close> and \<open>log\<close>.
  (\<open>getThemeStyles_unknown_theme\<close> and \<open>getLogLevelEmoji_unknown_level\<close> give the
  fallbacks for the keys that \<open>Object.prototype\<close> does not hold.)
\<close>

theorem lookup_inherited_property:
  "getThemeStyles h (JStr (js ''__proto__'')) (JStr (js ''[LOG]'')) = js ''[object Object]'' \<and>
   getThemeStyles h (JStr (js ''constructor'')) (JStr (js ''[LOG]'')) = native_text h (js ''constructor'') \<and>
   getThemeStyles h (JStr (js ''dark'')) (JStr (js ''[LOG]'')) = js ''color: white;'' \<and>
   getLogLevelEmoji h (JStr (js ''toString'')) = JInherited (js ''toString'') \<and>
   getLogLevelEmoji h (JStr (js ''[LOG]'')) = JStr [0xF8FF, 0xFC, 0xEC, 0xF9] \<and>
   events (log (example_host (Some (js ''Error'' @ [LF] @ js ''    at main (/srv/app/main.js:7:3)'')))
            (init constructor (Some [js ''theme'' \<mapsto> JStr (js ''__proto__'')]))
            [JStr (js ''x'')]) =
     [StackProbe,
      Print [JStr (js ''%c'' @ [0xF8FF, 0xFC, 0xEC, 0xF9] @
                   js '' [1/2/2026, 10:00:00 AM] [main.js] (line 7) {main} [LOG] ''),
             JStr (js ''[object Object]''),
             JStr (js ''x'')]]"
proof (intro conjI)
  show "getThemeStyles h (JStr (js ''__proto__'')) (JStr (js ''[LOG]'')) = js ''[object Object]''"
    by (simp add: getThemeStyles_def get_property_def levelStyles_def themeStyles_def
        object_prototype_names_def js_or_def js_def)
  show "getThemeStyles h (JStr (js ''constructor'')) (JStr (js ''[LOG]'')) = native_text h (js ''constructor'')"
    by (simp add: getThemeStyles_def get_property_def levelStyles_def themeStyles_def
        object_prototype_names_def js_or_def js_def)
  show "getThemeStyles h (JStr (js ''dark'')) (JStr (js ''[LOG]'')) = js ''color: white;''"
    by (simp add: getThemeStyles_def get_property_def levelStyles_def themeStyles_def
        object_prototype_names_def js_or_def js_def)
  show "getLogLevelEmoji h (JStr (js ''toString'')) = JInherited (js ''toString'')"
    by (simp add: getLogLevelEmoji_def get_property_def mapping_def
        object_prototype_names_def js_or_def js_def)
  show "getLogLevelEmoji h (JStr (js ''[LOG]'')) = JStr [0xF8FF, 0xFC, 0xEC, 0xF9]"
    by (simp add: getLogLevelEmoji_def get_property_def mapping_def
        object_prototype_names_def js_or_def js_def)
  show "events (log (example_host (Some (js ''Error'' @ [LF] @ js ''    at main (/srv/app/main.js:7:3)'')))
            (init constructor (Some [js ''theme'' \<mapsto> JStr (js ''__proto__'')]))
            [JStr (js ''x'')]) =
     [StackProbe,
      Print [JStr (js ''%c'' @ [0xF8FF, 0xFC, 0xEC, 0xF9] @
                   js '' [1/2/2026, 10:00:00 AM] [main.js] (line 7) {main} [LOG] ''),
             JStr (js ''[object Object]''),
             JStr (js ''x'')]]"
    by code_simp
qed

end
